theory Spec2Isabelle
  imports Main
begin

section \<open>The shared authentication state of \<open>react-intern/src/AuthContext.js\<close>\<close>

text \<open>
  The only stateful logic of the repository is the provider component \<open>AuthProvider\<close>:
  it reads the slot \<open>'user'\<close> of \<open>localStorage\<close>, parses it with \<open>JSON.parse\<close>, keeps the
  result in one \<open>useState\<close> slot and hands \<open>user\<close>, \<open>login\<close> and \<open>logout\<close> to its consumers.
  The platform functions it calls (\<open>localStorage.getItem\<close>, \<open>JSON.parse\<close>, \<open>useState\<close>)
  are not code of the repository; they are modelled below from their ECMAScript, Web Storage
  and React definitions, the component itself line by line from the source.
\<close>

subsection \<open>JavaScript values and errors\<close>

text \<open>
  A JSON value as \<open>JSON.parse\<close> builds it. A string is kept as its list of code units
  (a \<open>\uXXXX\<close> escape may denote a unit above 255), a number as its numeral text (the
  conversion to a double is not modelled), an object as its members in source order.
\<close>

type_synonym jsstring = "nat list"

datatype jsval =
    JNull
  | JBool bool
  | JNum string
  | JStr jsstring
  | JArr "jsval list"
  | JObj "(jsstring \<times> jsval) list"

datatype error = SyntaxError

subsection \<open>\<open>JSON.parse\<close>: the lexical grammar\<close>

datatype token =
    TLBrace | TRBrace | TLBracket | TRBracket | TColon | TComma
  | TNull | TTrue | TFalse
  | TNum string
  | TStr jsstring

definition is_ws :: "char \<Rightarrow> bool" where
  "is_ws c \<longleftrightarrow> c = CHR 0x20 \<or> c = CHR 0x09 \<or> c = CHR 0x0A \<or> c = CHR 0x0D"

definition is_digit :: "char \<Rightarrow> bool" where
  "is_digit c \<longleftrightarrow> c \<in> set ''0123456789''"

definition hex_val :: "char \<Rightarrow> nat option" where
  "hex_val c =
     (if c \<in> set ''0123456789'' then Some (of_char c - 48)
      else if c \<in> set ''abcdef'' then Some (of_char c - 87)
      else if c \<in> set ''ABCDEF'' then Some (of_char c - 55)
      else None)"

definition hex4 :: "char \<Rightarrow> char \<Rightarrow> char \<Rightarrow> char \<Rightarrow> nat option" where
  "hex4 a b c d =
     (case (hex_val a, hex_val b, hex_val c, hex_val d) of
        (Some w, Some x, Some y, Some z) \<Rightarrow> Some (((w * 16 + x) * 16 + y) * 16 + z)
      | _ \<Rightarrow> None)"

text \<open>The single-character escapes: \<open>\"\<close>, \<open>\\\<close>, \<open>\/\<close>, \<open>\b\<close>, \<open>\f\<close>, \<open>\n\<close>, \<open>\r\<close>, \<open>\t\<close>.\<close>

definition escape :: "char \<Rightarrow> nat option" where
  "escape e =
     (if e = CHR 0x22 then Some 0x22
      else if e = CHR 0x5C then Some 0x5C
      else if e = CHR ''/'' then Some 0x2F
      else if e = CHR ''b'' then Some 0x08
      else if e = CHR ''f'' then Some 0x0C
      else if e = CHR ''n'' then Some 0x0A
      else if e = CHR ''r'' then Some 0x0D
      else if e = CHR ''t'' then Some 0x09
      else None)"

text \<open>
  The rest of a string literal after its opening quote: the decoded code units and the
  input after the closing quote. A control character (below \<open>0x20\<close>), an unknown escape
  and a missing closing quote are errors.
\<close>

fun lex_string :: "string \<Rightarrow> jsstring \<Rightarrow> (jsstring \<times> string) option" where
  "lex_string [] acc = None"
| "lex_string (c # cs) acc =
     (if c = CHR 0x22 then Some (rev acc, cs)
      else if c = CHR 0x5C then
        (case cs of
           [] \<Rightarrow> None
         | e # cs' \<Rightarrow>
             if e = CHR ''u'' then
               (case cs' of
                  h1 # h2 # h3 # h4 # cs'' \<Rightarrow>
                    (case hex4 h1 h2 h3 h4 of
                       None \<Rightarrow> None
                     | Some n \<Rightarrow> lex_string cs'' (n # acc))
                | _ \<Rightarrow> None)
             else
               (case escape e of
                  None \<Rightarrow> None
                | Some n \<Rightarrow> lex_string cs' (n # acc)))
      else if (of_char c :: nat) < 0x20 then None
      else lex_string cs (of_char c # acc))"

text \<open>
  A number: \<open>-? (0 | [1-9][0-9]*) (. [0-9]+)? ([eE] [+-]? [0-9]+)?\<close>. Each part returns
  the text it matched and the input after it.
\<close>

definition lex_int :: "string \<Rightarrow> (string \<times> string) option" where
  "lex_int cs =
     (case cs of
        [] \<Rightarrow> None
      | c # cs' \<Rightarrow>
          if c = CHR ''0'' then Some ([c], cs')
          else if is_digit c then Some (takeWhile is_digit cs, dropWhile is_digit cs)
          else None)"

definition lex_frac :: "string \<Rightarrow> (string \<times> string) option" where
  "lex_frac cs =
     (case cs of
        c # cs' \<Rightarrow>
          if c = CHR ''.'' then
            (if takeWhile is_digit cs' = [] then None
             else Some (c # takeWhile is_digit cs', dropWhile is_digit cs'))
          else Some ([], cs)
      | [] \<Rightarrow> Some ([], cs))"

definition lex_sign :: "string \<Rightarrow> string \<times> string" where
  "lex_sign cs =
     (case cs of
        c # cs' \<Rightarrow> if c = CHR ''+'' \<or> c = CHR ''-'' then ([c], cs') else ([], cs)
      | [] \<Rightarrow> ([], cs))"

definition lex_exp :: "string \<Rightarrow> (string \<times> string) option" where
  "lex_exp cs =
     (case cs of
        c # cs' \<Rightarrow>
          if c = CHR ''e'' \<or> c = CHR ''E'' then
            (case lex_sign cs' of
               (sg, ds) \<Rightarrow>
                 if takeWhile is_digit ds = [] then None
                 else Some (c # sg @ takeWhile is_digit ds, dropWhile is_digit ds))
          else Some ([], cs)
      | [] \<Rightarrow> Some ([], cs))"

definition lex_minus :: "string \<Rightarrow> string \<times> string" where
  "lex_minus cs =
     (case cs of
        c # cs' \<Rightarrow> if c = CHR ''-'' then ([c], cs') else ([], cs)
      | [] \<Rightarrow> ([], cs))"

definition lex_number :: "string \<Rightarrow> (string \<times> string) option" where
  "lex_number cs =
     (case lex_minus cs of
        (sg, r0) \<Rightarrow>
          (case lex_int r0 of
             None \<Rightarrow> None
           | Some (ip, r1) \<Rightarrow>
               (case lex_frac r1 of
                  None \<Rightarrow> None
                | Some (fp, r2) \<Rightarrow>
                    (case lex_exp r2 of
                       None \<Rightarrow> None
                     | Some (ep, r3) \<Rightarrow> Some (sg @ ip @ fp @ ep, r3)))))"

text \<open>
  One token from the head of the input (which does not start with white space), and the
  input after it.
\<close>

definition starts_with :: "string \<Rightarrow> string \<Rightarrow> bool" where
  "starts_with w cs \<longleftrightarrow> take (length w) cs = w"

definition lex_token :: "string \<Rightarrow> (token \<times> string) option" where
  "lex_token cs =
     (case cs of
        [] \<Rightarrow> None
      | c # cs' \<Rightarrow>
          if c = CHR ''{'' then Some (TLBrace, cs')
          else if c = CHR ''}'' then Some (TRBrace, cs')
          else if c = CHR ''['' then Some (TLBracket, cs')
          else if c = CHR '']'' then Some (TRBracket, cs')
          else if c = CHR '':'' then Some (TColon, cs')
          else if c = CHR '','' then Some (TComma, cs')
          else if c = CHR 0x22 then
            (case lex_string cs' [] of
               None \<Rightarrow> None
             | Some (s, rest) \<Rightarrow> Some (TStr s, rest))
          else if c = CHR ''-'' \<or> is_digit c then
            (case lex_number cs of
               None \<Rightarrow> None
             | Some (n, rest) \<Rightarrow> Some (TNum n, rest))
          else if starts_with ''null'' cs then Some (TNull, drop 4 cs)
          else if starts_with ''true'' cs then Some (TTrue, drop 4 cs)
          else if starts_with ''false'' cs then Some (TFalse, drop 5 cs)
          else None)"

text \<open>
  The token sequence of a text; \<open>None\<close> when some token is malformed. White space (space,
  tab, line feed, carriage return) may separate tokens.
\<close>

function tokens :: "string \<Rightarrow> token list option" where
  "tokens cs =
     (case dropWhile is_ws cs of
        [] \<Rightarrow> Some []
      | c # cs' \<Rightarrow>
          (case lex_token (c # cs') of
             None \<Rightarrow> None
           | Some (t, rest) \<Rightarrow>
               (case tokens rest of
                  None \<Rightarrow> None
                | Some ts \<Rightarrow> Some (t # ts))))"
  by pat_completeness auto
termination
proof (relation "measure length")
  show "wf (measure length)" by simp
next
  fix cs :: string and c cs' x t rest
  assume dw: "dropWhile is_ws cs = c # cs'"
    and lt: "lex_token (c # cs') = Some x"
    and x: "(t, rest) = x"
  have str: "length r \<le> length xs" if "lex_string xs acc = Some (s, r)" for xs acc s r
    using that
  proof (induction xs arbitrary: acc rule: length_induct)
    case (1 xs)
    show ?case
    proof (cases xs)
      case Nil
      with 1 show ?thesis by simp
    next
      case (Cons c cs)
      from 1(2) have "r = cs
          \<or> (\<exists>ys acc'. length ys < length xs \<and> lex_string ys acc' = Some (s, r))"
        unfolding Cons by (auto split: if_splits list.splits option.splits)
      with 1(1) Cons show ?thesis by (auto intro: less_imp_le [THEN le_trans])
    qed
  qed
  have dwl: "length (dropWhile P xs) \<le> length xs" for P and xs :: string
    by (induction xs) auto
  have int: "length r < length xs" if "lex_int xs = Some (s, r)" for xs s r
    using that dwl [of is_digit "tl xs"]
    by (cases xs) (auto simp: lex_int_def split: if_splits)
  have frac: "length r \<le> length xs" if "lex_frac xs = Some (s, r)" for xs s r
    using that dwl [of is_digit "tl xs"]
    by (cases xs) (auto simp: lex_frac_def split: if_splits)
  have exp: "length r \<le> length xs" if "lex_exp xs = Some (s, r)" for xs s r
    using that dwl [of is_digit "tl xs"] dwl [of is_digit "tl (tl xs)"]
    by (cases xs) (auto simp: lex_exp_def lex_sign_def split: if_splits list.splits)
  have num: "length r < length xs" if "lex_number xs = Some (s, r)" for xs s r
  proof -
    obtain sg r0 where m: "lex_minus xs = (sg, r0)"
      by (cases "lex_minus xs")
    then have a: "length r0 \<le> length xs"
      by (auto simp: lex_minus_def split: list.splits if_splits)
    from that m obtain ip r1 fp r2 ep where
      b: "lex_int r0 = Some (ip, r1)" and c: "lex_frac r1 = Some (fp, r2)"
      and d: "lex_exp r2 = Some (ep, r)"
      by (auto simp: lex_number_def split: option.splits)
    from int [OF b] frac [OF c] exp [OF d] a show ?thesis by simp
  qed
  from lt x have lt': "lex_token (c # cs') = Some (t, rest)"
    by simp
  have "rest = cs' \<or> (\<exists>s. lex_string cs' [] = Some (s, rest))
      \<or> (\<exists>n. lex_number (c # cs') = Some (n, rest))
      \<or> rest = drop 4 (c # cs') \<or> rest = drop 5 (c # cs')"
    using lt' unfolding lex_token_def
    by (simp split: if_splits option.splits prod.splits)
  then have tok: "length rest < length (c # cs')"
    using num [of "c # cs'" _ rest] str [of cs' "[]" _ rest] by auto
  from dwl [of is_ws cs] dw tok show "(rest, cs) \<in> measure length"
    by simp
qed

subsection \<open>\<open>JSON.parse\<close>: the grammar of values\<close>

text \<open>
  The values are read from the tokens by a pushdown automaton. A frame of the stack is an
  array or an object under construction: the elements or members read so far (latest
  first), and for an object the key of the member whose value is being read.
\<close>

datatype frame =
    FArr "jsval list"
  | FObj "(jsstring \<times> jsval) list" jsstring

datatype pstate =
    PValue "frame list"
  | PArrStart "frame list"
  | PArrNext "jsval list" "frame list"
  | PObjStart "frame list"
  | PObjKey "(jsstring \<times> jsval) list" "frame list"
  | PObjColon "(jsstring \<times> jsval) list" jsstring "frame list"
  | PObjNext "(jsstring \<times> jsval) list" "frame list"
  | PDone jsval

text \<open>A value is complete: it is the result, or goes into the enclosing array or object.\<close>

fun complete :: "jsval \<Rightarrow> frame list \<Rightarrow> pstate" where
  "complete v [] = PDone v"
| "complete v (FArr acc # st) = PArrNext (v # acc) st"
| "complete v (FObj acc k # st) = PObjNext ((k, v) # acc) st"

text \<open>A token where a value is expected.\<close>

fun start_value :: "token \<Rightarrow> frame list \<Rightarrow> pstate option" where
  "start_value TNull st = Some (complete JNull st)"
| "start_value TTrue st = Some (complete (JBool True) st)"
| "start_value TFalse st = Some (complete (JBool False) st)"
| "start_value (TNum n) st = Some (complete (JNum n) st)"
| "start_value (TStr s) st = Some (complete (JStr s) st)"
| "start_value TLBracket st = Some (PArrStart st)"
| "start_value TLBrace st = Some (PObjStart st)"
| "start_value _ st = None"

fun pstep :: "pstate \<Rightarrow> token \<Rightarrow> pstate option" where
  "pstep (PValue st) t = start_value t st"
| "pstep (PArrStart st) t =
     (if t = TRBracket then Some (complete (JArr []) st) else start_value t (FArr [] # st))"
| "pstep (PArrNext acc st) t =
     (if t = TComma then Some (PValue (FArr acc # st))
      else if t = TRBracket then Some (complete (JArr (rev acc)) st)
      else None)"
| "pstep (PObjStart st) t =
     (case t of
        TRBrace \<Rightarrow> Some (complete (JObj []) st)
      | TStr k \<Rightarrow> Some (PObjColon [] k st)
      | _ \<Rightarrow> None)"
| "pstep (PObjKey acc st) t =
     (case t of
        TStr k \<Rightarrow> Some (PObjColon acc k st)
      | _ \<Rightarrow> None)"
| "pstep (PObjColon acc k st) t =
     (if t = TColon then Some (PValue (FObj acc k # st)) else None)"
| "pstep (PObjNext acc st) t =
     (if t = TComma then Some (PObjKey acc st)
      else if t = TRBrace then Some (complete (JObj (rev acc)) st)
      else None)"
| "pstep (PDone v) t = None"

text \<open>The text is one value exactly: at its end the automaton must have completed it.\<close>

fun parse_tokens :: "pstate \<Rightarrow> token list \<Rightarrow> jsval option" where
  "parse_tokens s [] = (case s of PDone v \<Rightarrow> Some v | _ \<Rightarrow> None)"
| "parse_tokens s (t # ts) =
     (case pstep s t of
        None \<Rightarrow> None
      | Some s' \<Rightarrow> parse_tokens s' ts)"

text \<open>
  \<open>JSON.parse(text)\<close>: the argument is converted to a string first (\<open>null\<close>, here \<open>None\<close>,
  becomes the text \<open>null\<close>), and a text that is not a JSON text throws \<open>SyntaxError\<close>.
\<close>

definition ToString :: "string option \<Rightarrow> string" where
  "ToString x = (case x of None \<Rightarrow> ''null'' | Some s \<Rightarrow> s)"

definition JSON_parse :: "string option \<Rightarrow> error + jsval" where
  "JSON_parse text =
     (case tokens (ToString text) of
        None \<Rightarrow> Inl SyntaxError
      | Some ts \<Rightarrow>
          (case parse_tokens (PValue []) ts of
             None \<Rightarrow> Inl SyntaxError
           | Some v \<Rightarrow> Inr v))"

subsection \<open>The platform state: \<open>localStorage\<close> and the state slot of the component\<close>

text \<open>
  \<open>localStorage\<close> maps keys to strings; \<open>getItem\<close> returns \<open>null\<close> (here \<open>None\<close>) for a key
  that is absent.
\<close>

type_synonym Storage = "string \<rightharpoonup> string"

definition getItem :: "Storage \<Rightarrow> string \<Rightarrow> string option" where
  "getItem store key = store key"

text \<open>
  The state the component runs on: the storage it reads and its one \<open>useState\<close> slot,
  which is empty (\<open>None\<close>) until the first render.
\<close>

record cell =
  localStorage :: Storage
  slot :: "jsval option"

text \<open>
  \<open>useState(initial)\<close>: the first render stores \<open>initial\<close> in the slot and returns it; every
  later render ignores its argument and returns what the slot holds.
\<close>

definition useState :: "jsval \<Rightarrow> jsval option \<Rightarrow> jsval \<times> jsval option" where
  "useState initial sl =
     (case sl of
        None \<Rightarrow> (initial, Some initial)
      | Some v \<Rightarrow> (v, Some v))"

text \<open>The setter returned by \<open>useState\<close>, called with a value: the slot holds that value.\<close>

definition setUser :: "jsval \<Rightarrow> cell \<Rightarrow> cell" where
  "setUser v c = c\<lparr>slot := Some v\<rparr>"

subsection \<open>The component \<open>AuthProvider\<close>\<close>

text \<open>
  One render of \<open>AuthProvider\<close>: line 8 parses the slot \<open>'user'\<close> of the storage (on
  every render, and an exception of \<open>JSON.parse\<close> leaves the component, for the source
  has no handler), line 9 is \<open>useState(data)\<close>. The result is the \<open>user\<close> of the value passed
  to \<open>AuthContext.Provider\<close>, and the state after the render.
\<close>

definition AuthProvider :: "cell \<Rightarrow> error + (jsval \<times> cell)" where
  "AuthProvider c =
     (case JSON_parse (getItem (localStorage c) ''user'') of
        Inl e \<Rightarrow> Inl e
      | Inr data \<Rightarrow>
          (case useState data (slot c) of
             (user, sl) \<Rightarrow> Inr (user, c\<lparr>slot := sl\<rparr>)))"

definition login :: "jsval \<Rightarrow> cell \<Rightarrow> cell" where
  "login userData c = setUser userData c"

definition logout :: "cell \<Rightarrow> cell" where
  "logout c = setUser JNull c"

text \<open>
  The \<open>user\<close> of the value the provider passes down when it renders on the current state:
  what a consumer reads (\<open>useContext(AuthContext).user\<close>) once React has rendered the
  provider on that state.
\<close>

definition provided_user :: "cell \<Rightarrow> error + jsval" where
  "provided_user c =
     (case AuthProvider c of
        Inl e \<Rightarrow> Inl e
      | Inr (user, c') \<Rightarrow> Inr user)"

text \<open>Sequences of calls of \<open>login\<close> and \<open>logout\<close>.\<close>

datatype op = Login jsval | Logout

fun apply_op :: "op \<Rightarrow> cell \<Rightarrow> cell" where
  "apply_op (Login v) c = login v c"
| "apply_op Logout c = logout c"

text \<open>
  The states of a mounted provider: the state after a first render that succeeded, and
  every state that \<open>login\<close>, \<open>logout\<close> and further renders lead to from there.
\<close>

inductive mounted :: "cell \<Rightarrow> bool" where
  first_render:
    "AuthProvider \<lparr>localStorage = store, slot = None\<rparr> = Inr (u, c) \<Longrightarrow> mounted c"
| after_login: "mounted c \<Longrightarrow> mounted (login v c)"
| after_logout: "mounted c \<Longrightarrow> mounted (logout c)"
| after_render: "mounted c \<Longrightarrow> AuthProvider c = Inr (u, c') \<Longrightarrow> mounted c'"

text \<open>
  What a consumer reads over a run: the \<open>user\<close> of the first render, then the \<open>user\<close>
  provided after each operation; an exception of the first render ends the run.
\<close>

fun reads :: "cell \<Rightarrow> op list \<Rightarrow> (error + jsval) list" where
  "reads c [] = []"
| "reads c (a # ops) = provided_user (apply_op a c) # reads (apply_op a c) ops"

definition run :: "Storage \<Rightarrow> op list \<Rightarrow> error + (error + jsval) list" where
  "run store ops =
     (case AuthProvider \<lparr>localStorage = store, slot = None\<rparr> of
        Inl e \<Rightarrow> Inl e
      | Inr (user, c) \<Rightarrow> Inr (Inr user # reads c ops))"

subsection \<open>The provider and its consumers\<close>


text \<open>
  A consumer reads \<open>useContext(AuthContext).user\<close>: the \<open>user\<close> of the value object that the
  provider's latest render built (line 18). \<open>user\<close> is a constant of one render (line 9),
  and \<open>login\<close> and \<open>logout\<close> only call the setter (lines 12 and 15), so the value a consumer
  reads changes when React renders the provider again, not when \<open>login\<close> returns.
\<close>

record tree =
  provider :: cell
  context_user :: jsval

definition mount :: "Storage \<Rightarrow> error + tree" where
  "mount store =
     (case AuthProvider \<lparr>localStorage = store, slot = None\<rparr> of
        Inl e \<Rightarrow> Inl e
      | Inr (user, c) \<Rightarrow> Inr \<lparr>provider = c, context_user = user\<rparr>)"

definition render :: "tree \<Rightarrow> error + tree" where
  "render t =
     (case AuthProvider (provider t) of
        Inl e \<Rightarrow> Inl e
      | Inr (user, c) \<Rightarrow> Inr \<lparr>provider = c, context_user = user\<rparr>)"

definition call_login :: "jsval \<Rightarrow> tree \<Rightarrow> tree" where
  "call_login userData t = t\<lparr>provider := login userData (provider t)\<rparr>"

section \<open>Properties\<close>

subsection \<open>Evaluation of the parser and the invariant of a mounted provider\<close>

lemmas json_eval = JSON_parse_def ToString_def is_ws_def lex_token_def starts_with_def
  is_digit_def lex_number_def lex_minus_def lex_int_def lex_frac_def lex_exp_def lex_sign_def

lemma JSON_parse_null: "JSON_parse None = Inr JNull"
  by (simp add: json_eval)

text \<open>
  A mounted provider has a filled slot, and the slot \<open>'user'\<close> of its storage parses: the
  first render parsed it, and no operation of the component writes the storage.
\<close>

lemma mounted_inv:
  "mounted c \<Longrightarrow> (\<exists>v. slot c = Some v) \<and> (\<exists>d. JSON_parse (getItem (localStorage c) ''user'') = Inr d)"
proof (induction rule: mounted.induct)
  case (first_render store u c)
  then show ?case
    by (auto simp: AuthProvider_def useState_def split: sum.splits)
next
  case (after_login c v)
  then show ?case by (simp add: login_def setUser_def)
next
  case (after_logout c)
  then show ?case by (simp add: logout_def setUser_def)
next
  case (after_render c u c')
  then show ?case
    by (auto simp: AuthProvider_def useState_def split: sum.splits)
qed

lemma render_mounted:
  assumes "mounted c"
  shows "AuthProvider c = Inr (the (slot c), c)"
  using mounted_inv [OF assms]
  by (auto simp: AuthProvider_def useState_def)




lemma mounted_initial: "mounted \<lparr>localStorage = Map.empty, slot = Some JNull\<rparr>"
proof -
  have "AuthProvider \<lparr>localStorage = Map.empty, slot = None\<rparr>
      = Inr (JNull, \<lparr>localStorage = Map.empty, slot = Some JNull\<rparr>)"
    by (simp add: AuthProvider_def getItem_def useState_def JSON_parse_null)
  then show ?thesis by (rule first_render)
qed

lemma localStorage_apply_op: "localStorage (apply_op a c) = localStorage c"
  by (cases a) (simp_all add: login_def logout_def setUser_def)

lemma AuthProvider_cong:
  assumes "getItem (localStorage c1) ''user'' = getItem (localStorage c2) ''user''"
    and "slot c1 = slot c2"
  shows "map_sum id fst (AuthProvider c1) = map_sum id fst (AuthProvider c2)"
    and "provided_user c1 = provided_user c2"
  using assms
  by (auto simp: AuthProvider_def provided_user_def useState_def split: sum.splits option.splits)

lemma reads_cong:
  assumes "getItem (localStorage c1) ''user'' = getItem (localStorage c2) ''user''"
    and "slot c1 = slot c2"
  shows "reads c1 ops = reads c2 ops"
  using assms
proof (induction ops arbitrary: c1 c2)
  case Nil
  show ?case by simp
next
  case (Cons a ops)
  have st: "getItem (localStorage (apply_op a c1)) ''user''
      = getItem (localStorage (apply_op a c2)) ''user''"
    using Cons.prems(1) by (simp add: localStorage_apply_op)
  have sl: "slot (apply_op a c1) = slot (apply_op a c2)"
    by (cases a) (simp_all add: login_def logout_def setUser_def)
  from AuthProvider_cong(2) [OF st sl] Cons.IH [OF st sl] show ?case
    by simp
qed

subsection \<open>Construction\<close>

text \<open>
  Against C1 as stated: with the malformed text \<open>{\<close> in the slot \<open>'user'\<close>, the first render
  does not fall back to the empty value; the \<open>SyntaxError\<close> of \<open>JSON.parse\<close> leaves the
  component.
\<close>

theorem AuthProvider_construct_counterexample:
  "AuthProvider \<lparr>localStorage = [''user'' \<mapsto> ''{''], slot = None\<rparr> = Inl SyntaxError"
  by (simp add: AuthProvider_def getItem_def json_eval)

text \<open>
  C1, amended. When the slot \<open>'user'\<close> is absent, the first render succeeds, the slot of
  the component holds \<open>null\<close> and a consumer reads \<open>null\<close>. When the slot holds a text that
  is not JSON, the first render raises \<open>SyntaxError\<close>.
\<close>

theorem AuthProvider_construct:
  "(store ''user'' = None \<longrightarrow>
      AuthProvider \<lparr>localStorage = store, slot = None\<rparr>
        = Inr (JNull, \<lparr>localStorage = store, slot = Some JNull\<rparr>)
      \<and> provided_user \<lparr>localStorage = store, slot = Some JNull\<rparr> = Inr JNull)
   \<and> (\<forall>t. store ''user'' = Some t \<and> JSON_parse (Some t) = Inl SyntaxError \<longrightarrow>
      AuthProvider \<lparr>localStorage = store, slot = None\<rparr> = Inl SyntaxError)"
  by (simp add: AuthProvider_def provided_user_def getItem_def useState_def JSON_parse_null)

theorem AuthProvider_construct_witness:
  "AuthProvider \<lparr>localStorage = Map.empty, slot = None\<rparr>
      = Inr (JNull, \<lparr>localStorage = Map.empty, slot = Some JNull\<rparr>)
   \<and> provided_user \<lparr>localStorage = Map.empty, slot = Some JNull\<rparr> = Inr JNull
   \<and> JSON_parse (Some ''undefined'') = Inl SyntaxError
   \<and> AuthProvider \<lparr>localStorage = [''user'' \<mapsto> ''undefined''], slot = None\<rparr> = Inl SyntaxError"
proof -
  have bad: "JSON_parse (Some ''undefined'') = Inl SyntaxError"
    by (simp add: json_eval)
  have absent: "(Map.empty :: Storage) ''user'' = None"
    by simp
  have present: "[''user'' \<mapsto> ''undefined''] ''user'' = Some ''undefined''"
    by simp
  from AuthProvider_construct [of Map.empty] absent
    AuthProvider_construct [of "[''user'' \<mapsto> ''undefined'']"] present bad
  show ?thesis by blast
qed

subsection \<open>Writing and reading\<close>

text \<open>
  Against C2 as stated: on the provider mounted over an empty storage, the read made
  immediately after \<open>login\<close> with the string \<open>Ann\<close> is still the value of the latest render,
  \<open>null\<close>, and not the value written.
\<close>

theorem login_immediate_read_counterexample:
  "mount Map.empty = Inr \<lparr>provider = \<lparr>localStorage = Map.empty, slot = Some JNull\<rparr>,
                           context_user = JNull\<rparr>
   \<and> context_user (call_login (JStr [65, 110, 110])
         \<lparr>provider = \<lparr>localStorage = Map.empty, slot = Some JNull\<rparr>, context_user = JNull\<rparr>)
       \<noteq> JStr [65, 110, 110]"
  by (simp add: mount_def call_login_def AuthProvider_def getItem_def useState_def
      JSON_parse_null)

text \<open>
  C2, amended. For every value \<open>v\<close> and every state of a mounted provider: until the
  provider is rendered again, a read after \<open>login v\<close> gives the value it gave before; the
  render that follows \<open>login v\<close> succeeds, and after it a read gives exactly \<open>v\<close>.
\<close>

theorem login_read_after_render:
  assumes "mounted (provider t)"
  shows "context_user (call_login v t) = context_user t
     \<and> render (call_login v t)
         = Inr \<lparr>provider = login v (provider t), context_user = v\<rparr>"
  using render_mounted [OF after_login [OF assms, of v]]
  by (simp add: call_login_def render_def login_def setUser_def)

theorem login_read_after_render_witness:
  "mounted (provider \<lparr>provider = \<lparr>localStorage = Map.empty, slot = Some JNull\<rparr>,
                       context_user = JNull\<rparr>)
   \<and> context_user (call_login (JBool True)
         \<lparr>provider = \<lparr>localStorage = Map.empty, slot = Some JNull\<rparr>, context_user = JNull\<rparr>)
       = JNull
   \<and> render (call_login (JBool True)
         \<lparr>provider = \<lparr>localStorage = Map.empty, slot = Some JNull\<rparr>, context_user = JNull\<rparr>)
       = Inr \<lparr>provider = \<lparr>localStorage = Map.empty, slot = Some (JBool True)\<rparr>,
              context_user = JBool True\<rparr>"
proof -
  let ?t = "\<lparr>provider = \<lparr>localStorage = Map.empty, slot = Some JNull\<rparr>, context_user = JNull\<rparr>"
  have m: "mounted (provider ?t)"
    using mounted_initial by simp
  from m login_read_after_render [OF m, of "JBool True"] show ?thesis
    by (simp add: login_def setUser_def)
qed





subsection \<open>Frame and purity\<close>

text \<open>
  C8. \<open>login\<close> and \<open>logout\<close> leave \<open>localStorage\<close> as it is, and so does every sequence of
  them.
\<close>

theorem write_keeps_storage:
  "localStorage (login v c) = localStorage c
   \<and> localStorage (logout c) = localStorage c
   \<and> localStorage (fold apply_op ops c) = localStorage c"
proof -
  have "localStorage (fold apply_op ops c) = localStorage c"
    by (induction ops arbitrary: c) (simp_all add: localStorage_apply_op)
  then show ?thesis by (simp add: login_def logout_def setUser_def)
qed




subsection \<open>Determinism\<close>

text \<open>
  C10. Two runs that start on storages with the same content in the slot \<open>'user'\<close> and
  apply the same operations read the same values at every point (and raise the same
  exception, if the first render raises); the rest of the storage has no influence.
\<close>

theorem run_deterministic:
  assumes "getItem s1 ''user'' = getItem s2 ''user''"
  shows "run s1 ops = run s2 ops"
proof (cases "JSON_parse (getItem s1 ''user'')")
  case (Inl e)
  with assms show ?thesis
    by (simp add: run_def AuthProvider_def)
next
  case (Inr d)
  have "reads \<lparr>localStorage = s1, slot = Some d\<rparr> ops
      = reads \<lparr>localStorage = s2, slot = Some d\<rparr> ops"
    by (rule reads_cong) (simp_all add: assms)
  with Inr assms show ?thesis
    by (simp add: run_def AuthProvider_def useState_def)
qed

theorem run_deterministic_witness:
  "getItem [''user'' \<mapsto> ''7''] ''user'' = getItem [''user'' \<mapsto> ''7'', ''theme'' \<mapsto> ''dark''] ''user''
   \<and> run [''user'' \<mapsto> ''7''] [Login (JBool True), Logout]
       = run [''user'' \<mapsto> ''7'', ''theme'' \<mapsto> ''dark''] [Login (JBool True), Logout]
   \<and> run [''user'' \<mapsto> ''7''] [Login (JBool True), Logout]
       = Inr [Inr (JNum ''7''), Inr (JBool True), Inr JNull]"
proof -
  have h: "getItem [''user'' \<mapsto> ''7''] ''user''
      = getItem [''user'' \<mapsto> ''7'', ''theme'' \<mapsto> ''dark''] ''user''"
    by (simp add: getItem_def)
  have r: "run [''user'' \<mapsto> ''7''] [Login (JBool True), Logout]
      = Inr [Inr (JNum ''7''), Inr (JBool True), Inr JNull]"
    by (simp add: run_def AuthProvider_def provided_user_def useState_def getItem_def
        login_def logout_def setUser_def json_eval)
  from h run_deterministic [OF h, of "[Login (JBool True), Logout]"] r
  show ?thesis by simp
qed

end
